theory Spec2Isabelle
  imports Main
begin

section \<open>JavaScript values\<close>

text \<open>
  The data that travels through the adapter: errors handed to callbacks, request bodies,
  dispatch results. \<open>JUndefined\<close> is an argument that was not passed or a property that
  is absent. Numbers are the integers (no fraction, no NaN). \<open>JError m\<close> is an
  \<^verbatim>\<open>Error\<close> object with message \<open>m\<close>.
\<close>

datatype jsval =
    JUndefined
  | JNull
  | JBool bool
  | JNum int
  | JStr string
  | JArr "jsval list"
  | JObj "(string \<times> jsval) list"
  | JError string

text \<open>
  What \<^verbatim>\<open>if (v)\<close> and \<^verbatim>\<open>v || d\<close> test. A callback reports an error when its first
  argument is truthy, and none when it is \<^verbatim>\<open>null\<close>, \<^verbatim>\<open>undefined\<close> or otherwise falsy.
\<close>

fun truthy :: "jsval \<Rightarrow> bool" where
  "truthy JUndefined = False"
| "truthy JNull = False"
| "truthy (JBool b) = b"
| "truthy (JNum n) = (n \<noteq> 0)"
| "truthy (JStr s) = (s \<noteq> [])"
| "truthy (JArr xs) = True"
| "truthy (JObj kvs) = True"
| "truthy (JError m) = True"

section \<open>Requests, responses and the world they live in\<close>

text \<open>
  The request and the response are objects of the host server that every callable of a
  chain receives by reference, so they live in a store and the callables get their
  addresses. Of a request the adapter reads \<^verbatim>\<open>method\<close> (the field \<open>req_method\<close>),
  \<^verbatim>\<open>originalUrl\<close> and \<^verbatim>\<open>body\<close>, which is \<open>JUndefined\<close> when nobody has attached one.
  Of a response the model keeps the calls made on it, oldest first.
  \<open>journal\<close> is the memory of everything outside the adapter (the handlers of the actor
  system, the host server behind the continuation): the adapter itself never reads or
  writes it.
\<close>

record request =
  req_method :: string
  originalUrl :: string
  body :: jsval

datatype reply_call =
    WriteHead nat "(string \<times> string) list"
  | End jsval

record world =
  requests :: "nat \<Rightarrow> request"
  replies :: "nat \<Rightarrow> reply_call list"
  journal :: "jsval list"

text \<open>
  A continuation \<^verbatim>\<open>(err) => ...\<close> and a middleware callable
  \<^verbatim>\<open>(request, reply, next) => ...\<close>, both in continuation-passing style over the world.
\<close>

type_synonym continuation = "jsval \<Rightarrow> world \<Rightarrow> world"

type_synonym callable = "nat \<Rightarrow> nat \<Rightarrow> continuation \<Rightarrow> world \<Rightarrow> world"

definition writeHead :: "nat \<Rightarrow> nat \<Rightarrow> (string \<times> string) list \<Rightarrow> world \<Rightarrow> world" where
  "writeHead reply status headers w =
     w\<lparr>replies := (replies w)(reply := replies w reply @ [WriteHead status headers])\<rparr>"

definition end_reply :: "nat \<Rightarrow> jsval \<Rightarrow> world \<Rightarrow> world" where
  "end_reply reply chunk w =
     w\<lparr>replies := (replies w)(reply := replies w reply @ [End chunk])\<rparr>"

section \<open>composeMiddleware\<close>

text \<open>
  The function given to \<^verbatim>\<open>reduce\<close>:
  \<^verbatim>\<open>(previous, current) => (req, res, next) =>
      previous(req, res, (err) => { if (err) { return next(err) }; current(req, res, next) })\<close>
\<close>

definition compose_step :: "callable \<Rightarrow> callable \<Rightarrow> callable" where
  "compose_step previous current =
     (\<lambda>req res next.
        previous req res (\<lambda>err. if truthy err then next err else current req res next))"

text \<open>
  \<^verbatim>\<open>_middleware.reduce(f)\<close> has no initial value: it throws a TypeError on an empty
  array, returns the only element of a singleton, and folds from the left otherwise.
\<close>

definition composeMiddleware :: "callable list \<Rightarrow> jsval + callable" where
  "composeMiddleware fns =
     (case fns of
        [] \<Rightarrow> Inl (JError ''Reduce of empty array with no initial value'')
      | first # rest \<Rightarrow> Inr (foldl compose_step first rest))"

text \<open>
  The chain as the specification words it: the first callable runs; the callable after it
  runs only from the continuation of the one before, and only when that continuation got
  no error; an error goes to the continuation of the whole chain, and the last callable
  gets that continuation as its own.
\<close>

fun chain_spec :: "callable \<Rightarrow> callable list \<Rightarrow> callable" where
  "chain_spec m [] = m"
| "chain_spec m (m' # ms) =
     (\<lambda>req res next.
        m req res (\<lambda>err. if truthy err then next err else chain_spec m' ms req res next))"

section \<open>Routes, options and collaborators\<close>

text \<open>
  An entry of a route's \<^verbatim>\<open>middleware\<close> array, and a value of the named-middleware object:
  a function, a string, or any other value, of which only the text that a template literal
  makes of it matters.
\<close>

datatype entry =
    Fn callable
  | Str string
  | Other string

record route =
  path :: string
  methods :: "string list"
  pattern :: string
  middleware :: "entry list option"
  autoreply :: bool

record options =
  opt_middleware :: "string \<Rightarrow> entry option"
  parseBody :: bool

record args =
  args_body :: jsval
  args_route :: route
  args_query :: jsval

record payload =
  request_h :: nat
  response_h :: nat
  args :: args

text \<open>
  What the adapter calls and does not define: \<^verbatim>\<open>ReadBody(request, callback)\<close>,
  \<^verbatim>\<open>seneca.act(pattern, payload, callback)\<close>, \<^verbatim>\<open>JSON.stringify\<close>, and
  \<^verbatim>\<open>QueryString.parse(URL.parse(url).query)\<close>.
\<close>

record env =
  ReadBody :: "nat \<Rightarrow> (jsval \<Rightarrow> jsval \<Rightarrow> world \<Rightarrow> world) \<Rightarrow> world \<Rightarrow> world"
  act :: "string \<Rightarrow> payload \<Rightarrow> (jsval \<Rightarrow> jsval \<Rightarrow> world \<Rightarrow> world) \<Rightarrow> world \<Rightarrow> world"
  JSON_stringify :: "jsval \<Rightarrow> jsval"
  parse_query :: "string \<Rightarrow> jsval"

section \<open>The request bridge\<close>

text \<open>The callback given to \<^verbatim>\<open>seneca.act\<close>.\<close>

definition act_callback ::
  "env \<Rightarrow> route \<Rightarrow> nat \<Rightarrow> continuation \<Rightarrow> jsval \<Rightarrow> jsval \<Rightarrow> world \<Rightarrow> world" where
  "act_callback e rt reply next err response w =
     (if truthy err then next err w
      else if autoreply rt then
        end_reply reply (JSON_stringify e response)
          (writeHead reply 200 [(''Content-Type'', ''application/json'')] w)
      else w)"

definition finish ::
  "env \<Rightarrow> route \<Rightarrow> nat \<Rightarrow> nat \<Rightarrow> continuation \<Rightarrow> jsval \<Rightarrow> jsval \<Rightarrow> world \<Rightarrow> world" where
  "finish e rt request reply next err body' w =
     (if truthy err then next err w
      else
        act e (pattern rt)
          \<lparr>request_h = request, response_h = reply,
           args = \<lparr>args_body = body', args_route = rt,
                   args_query = parse_query e (originalUrl (requests w request))\<rparr>\<rparr>
          (act_callback e rt reply next) w)"

text \<open>The last callable of every chain.\<close>

definition bridge :: "env \<Rightarrow> options \<Rightarrow> route \<Rightarrow> callable" where
  "bridge e opts rt =
     (\<lambda>request reply next w.
        if req_method (requests w request) \<in> set (methods rt) then
          (if parseBody opts then ReadBody e request (finish e rt request reply next) w
           else
             finish e rt request reply next JNull
               (if truthy (body (requests w request)) then body (requests w request)
                else JObj []) w)
        else w)"

section \<open>connect\<close>

text \<open>
  One entry of \<^verbatim>\<open>route.middleware\<close>: a string is looked up in the named middleware,
  anything else stands for itself, and what is not a function is thrown as an error
  that quotes the entry as written.
\<close>

fun resolve_entry :: "(string \<Rightarrow> entry option) \<Rightarrow> entry \<Rightarrow> jsval + callable" where
  "resolve_entry named (Fn f) = Inr f"
| "resolve_entry named (Str s) =
     (case named s of
        Some (Fn f) \<Rightarrow> Inr f
      | _ \<Rightarrow> Inl (JError (''expected valid middleware, got '' @ s)))"
| "resolve_entry named (Other txt) =
     Inl (JError (''expected valid middleware, got '' @ txt))"

text \<open>\<^verbatim>\<open>.map\<close> over the entries: the first throw ends it.\<close>

fun resolve_all :: "(string \<Rightarrow> entry option) \<Rightarrow> entry list \<Rightarrow> jsval + callable list" where
  "resolve_all named [] = Inr []"
| "resolve_all named (x # xs) =
     (case resolve_entry named x of
        Inl err \<Rightarrow> Inl err
      | Inr f \<Rightarrow>
          (case resolve_all named xs of
             Inl err \<Rightarrow> Inl err
           | Inr fs \<Rightarrow> Inr (f # fs)))"

text \<open>\<^verbatim>\<open>route.middleware || []\<close>\<close>

definition entries :: "route \<Rightarrow> entry list" where
  "entries rt = (case middleware rt of None \<Rightarrow> [] | Some es \<Rightarrow> es)"

text \<open>The handler that \<^verbatim>\<open>context.use\<close> is given for a route, or what is thrown instead.\<close>

definition route_handler :: "env \<Rightarrow> options \<Rightarrow> route \<Rightarrow> jsval + callable" where
  "route_handler e opts rt =
     (case resolve_all (opt_middleware opts) (entries rt) of
        Inl err \<Rightarrow> Inl err
      | Inr routeMiddleware \<Rightarrow> composeMiddleware (routeMiddleware @ [bridge e opts rt]))"

text \<open>
  What one call of the adapter has done: the \<^verbatim>\<open>context.use(path, handler)\<close> calls (oldest
  first), the \<^verbatim>\<open>done(err, summary)\<close> calls, and the error it threw, if any.
\<close>

datatype done_call = Done jsval "route list option"

record outcome =
  used :: "(string \<times> callable) list"
  done_calls :: "done_call list"
  thrown :: "jsval option"

text \<open>\<^verbatim>\<open>_.each(routes, ...)\<close>: the routes in order, until one throws.\<close>

fun each_route :: "env \<Rightarrow> options \<Rightarrow> route list \<Rightarrow> outcome \<Rightarrow> outcome" where
  "each_route e opts [] st = st"
| "each_route e opts (rt # rts) st =
     (case route_handler e opts rt of
        Inl err \<Rightarrow> st\<lparr>thrown := Some err\<rparr>
      | Inr handler \<Rightarrow> each_route e opts rts (st\<lparr>used := used st @ [(path rt, handler)]\<rparr>))"

definition connect :: "env \<Rightarrow> options \<Rightarrow> 'c option \<Rightarrow> 'a \<Rightarrow> route list \<Rightarrow> outcome" where
  "connect e opts context auth routes =
     (case context of
        None \<Rightarrow>
          \<lparr>used = [], done_calls = [Done (JError ''no context provided'') None], thrown = None\<rparr>
      | Some ctx \<Rightarrow>
          (let st = each_route e opts routes \<lparr>used = [], done_calls = [], thrown = None\<rparr>
           in case thrown st of
                Some err \<Rightarrow> st
              | None \<Rightarrow> st\<lparr>done_calls := done_calls st @ [Done JNull (Some routes)]\<rparr>))"

section \<open>Vocabulary of the specification\<close>

text \<open>
  An entry is usable when it is a callable, or a string that the named middleware maps
  to a callable.
\<close>

fun callable_entry :: "(string \<Rightarrow> entry option) \<Rightarrow> entry \<Rightarrow> bool" where
  "callable_entry named (Fn f) = True"
| "callable_entry named (Str s) = (case named s of Some (Fn f) \<Rightarrow> True | _ \<Rightarrow> False)"
| "callable_entry named (Other txt) = False"

text \<open>
  Callables that can be watched: each writes its label into the journal when it runs and
  then either calls its continuation once, with the given argument, or never calls it.
\<close>

datatype verdict = Calls jsval | Stops

definition marked :: "jsval \<times> verdict \<Rightarrow> callable" where
  "marked p =
     (\<lambda>req res next w.
        case snd p of
          Calls err \<Rightarrow> next err (w\<lparr>journal := journal w @ [fst p]\<rparr>)
        | Stops \<Rightarrow> w\<lparr>journal := journal w @ [fst p]\<rparr>)"

text \<open>A callable lets the chain go on when it calls its continuation without an error.\<close>

fun passes :: "verdict \<Rightarrow> bool" where
  "passes (Calls err) = (\<not> truthy err)"
| "passes Stops = False"

text \<open>
  What the specification promises of a non-empty chain of watched callables: those up to
  the first that does not pass (or up to the last one) run, in list order and nobody else;
  the continuation of the whole chain gets what that callable gave its own, if anything.
\<close>

definition ran :: "(jsval \<times> verdict) list \<Rightarrow> nat" where
  "ran ps = length (takeWhile (passes \<circ> snd) (butlast ps))"

definition in_order :: "(jsval \<times> verdict) list \<Rightarrow> continuation \<Rightarrow> world \<Rightarrow> world" where
  "in_order ps next w =
     (let w' = w\<lparr>journal := journal w @ map fst (take (Suc (ran ps)) ps)\<rparr>
      in case snd (ps ! ran ps) of Calls err \<Rightarrow> next err w' | Stops \<Rightarrow> w')"

section \<open>Concrete collaborators for the examples\<close>

text \<open>Whoever is outside the adapter writes down what reaches it.\<close>

definition jot :: "jsval \<Rightarrow> world \<Rightarrow> world" where
  "jot v w = w\<lparr>journal := journal w @ [v]\<rparr>"

text \<open>The host server behind the chain: it records the error it is handed.\<close>

definition host_next :: continuation where
  "host_next err w = jot (JArr [JStr ''next'', err]) w"


text \<open>
  An actor system whose handler records the pattern and the body it was sent and replies
  with that body; a body reader that yields \<^verbatim>\<open>{foo: 'bar'}\<close>. The serialiser stands in
  for \<^verbatim>\<open>JSON.stringify\<close> on the only value the examples serialise, the empty object.
\<close>

definition echo_env :: env where
  "echo_env =
     \<lparr>ReadBody = (\<lambda>request cb. cb JNull (JObj [(''foo'', JStr ''bar'')])),
      act = (\<lambda>p pl cb w. cb JNull (args_body (args pl))
                             (jot (JArr [JStr p, args_body (args pl)]) w)),
      JSON_stringify = (\<lambda>v. if v = JObj [] then JStr ''{}'' else JUndefined),
      parse_query = (\<lambda>url. JObj [])\<rparr>"



definition plain_options :: options where
  "plain_options = \<lparr>opt_middleware = (\<lambda>name. None), parseBody = False\<rparr>"


definition echo_route :: route where
  "echo_route =
     \<lparr>path = ''/echo'', methods = [''POST''], pattern = ''role:test,cmd:echo'',
      middleware = None, autoreply = True\<rparr>"

definition ping_route :: route where
  "ping_route =
     \<lparr>path = ''/ping'', methods = [''GET''], pattern = ''role:test,cmd:ping'',
      middleware = None, autoreply = True\<rparr>"

definition broken_route :: route where
  "broken_route =
     \<lparr>path = ''/broken'', methods = [''GET''], pattern = ''role:test,cmd:broken'',
      middleware = Some [Str ''total not valid''], autoreply = True\<rparr>"

definition quiet_route :: route where
  "quiet_route =
     \<lparr>path = ''/quiet'', methods = [''POST''], pattern = ''role:test,cmd:quiet'',
      middleware = None, autoreply = False\<rparr>"

definition post_foo :: request where
  "post_foo = \<lparr>req_method = ''POST'', originalUrl = ''/echo'', body = JObj [(''foo'', JStr ''bar'')]\<rparr>"

definition post_false :: request where
  "post_false = \<lparr>req_method = ''POST'', originalUrl = ''/echo'', body = JBool False\<rparr>"

definition get_ping :: request where
  "get_ping = \<lparr>req_method = ''GET'', originalUrl = ''/ping'', body = JUndefined\<rparr>"

text \<open>A world with one request (at every address) and nothing written or recorded yet.\<close>

definition world_of :: "request \<Rightarrow> world" where
  "world_of r = \<lparr>requests = (\<lambda>a. r), replies = (\<lambda>a. []), journal = []\<rparr>"

section \<open>The composer\<close>

lemma chain_spec_compose_step:
  "chain_spec (compose_step m m') ms = chain_spec m (m' # ms)"
  by (cases ms) (simp_all add: compose_step_def cong: if_cong)

lemma foldl_compose_step: "foldl compose_step m ms = chain_spec m ms"
  by (induction ms arbitrary: m) (simp_all add: chain_spec_compose_step del: chain_spec.simps(2))

lemma in_order_single: "in_order [p] next w = marked p req res next w"
  by (simp add: in_order_def ran_def marked_def split: verdict.splits)

lemma in_order_pass:
  "passes (snd p) \<Longrightarrow>
   in_order (p # q # qs) next w = in_order (q # qs) next (w\<lparr>journal := journal w @ [fst p]\<rparr>)"
  by (simp add: in_order_def ran_def)

lemma marked_chain:
  "chain_spec (marked p) (map marked ps) req res next w = in_order (p # ps) next w"
proof (induction ps arbitrary: p w)
  case Nil
  show ?case by (simp add: in_order_single [of p "next" w req res])
next
  case (Cons q qs)
  show ?case
  proof (cases "passes (snd p)")
    case True
    then obtain err where p: "snd p = Calls err" "\<not> truthy err"
      by (cases "snd p") auto
    have "chain_spec (marked p) (map marked (q # qs)) req res next w =
            chain_spec (marked q) (map marked qs) req res next
              (w\<lparr>journal := journal w @ [fst p]\<rparr>)"
      using p by (simp add: marked_def)
    then show ?thesis
      by (simp only: Cons.IH in_order_pass [OF True])
  next
    case False
    have "chain_spec (marked p) (map marked (q # qs)) req res next w =
            (case snd p of
               Calls err \<Rightarrow> next err (w\<lparr>journal := journal w @ [fst p]\<rparr>)
             | Stops \<Rightarrow> w\<lparr>journal := journal w @ [fst p]\<rparr>)"
      using False by (cases "snd p") (simp_all add: marked_def)
    also have "\<dots> = in_order (p # q # qs) next w"
      using False by (cases "snd p") (simp_all add: in_order_def ran_def)
    finally show ?thesis .
  qed
qed

text \<open>
  Claim C1. For a non-empty list of callables, composeMiddleware yields the chain that the
  specification describes: the callables run in list order, a callable runs only from the
  continuation of the one before it and only when that continuation got no error, and an
  error handed to any continuation goes to the continuation of the composed callable
  without any later callable running. For watched callables this shows in the journal:
  exactly the callables up to the first that does not pass have run, in list order.
\<close>

theorem composeMiddleware_chain:
  "composeMiddleware (m # ms) = Inr (chain_spec m ms) \<and>
   composeMiddleware (map marked (p # ps)) = Inr (\<lambda>req res. in_order (p # ps))"
proof
  show "composeMiddleware (m # ms) = Inr (chain_spec m ms)"
    by (simp add: composeMiddleware_def foldl_compose_step)
  have "chain_spec (marked p) (map marked ps) = (\<lambda>req res. in_order (p # ps))"
    by (intro ext) (rule marked_chain)
  then show "composeMiddleware (map marked (p # ps)) = Inr (\<lambda>req res. in_order (p # ps))"
    by (simp add: composeMiddleware_def foldl_compose_step)
qed

text \<open>
  Three callables: the first passes, the second reports an error, the third never runs.
\<close>

theorem composeMiddleware_chain_witness:
  "composeMiddleware
     (map marked [(JStr ''head'', Calls JUndefined), (JStr ''auth'', Calls (JError ''denied'')),
                  (JStr ''bridge'', Stops)]) =
     Inr (\<lambda>req res. in_order
            [(JStr ''head'', Calls JUndefined), (JStr ''auth'', Calls (JError ''denied'')),
             (JStr ''bridge'', Stops)]) \<and>
   journal (in_order
       [(JStr ''head'', Calls JUndefined), (JStr ''auth'', Calls (JError ''denied'')),
        (JStr ''bridge'', Stops)] host_next (world_of get_ping)) =
     [JStr ''head'', JStr ''auth'', JArr [JStr ''next'', JError ''denied'']]"
  using composeMiddleware_chain [of "marked (JStr ''head'', Calls JUndefined)" "[]"
      "(JStr ''head'', Calls JUndefined)"
      "[(JStr ''auth'', Calls (JError ''denied'')), (JStr ''bridge'', Stops)]"]
  by (simp add: in_order_def ran_def host_next_def jot_def world_of_def)

section \<open>The request bridge\<close>





text \<open>
  Claim C5. When the method of the request is not among the methods of the route, the
  bridge leaves the world as it was: it reads no body, dispatches nothing, writes no
  response, and does not call its continuation either.
\<close>

theorem other_method_no_action:
  assumes "req_method (requests w request) \<notin> set (methods rt)"
  shows "bridge e opts rt request reply next w = w"
  using assms by (simp add: bridge_def)

theorem other_method_no_action_witness:
  "req_method (requests (world_of get_ping) 0) \<notin> set (methods echo_route) \<and>
   bridge echo_env plain_options echo_route 0 0 host_next (world_of get_ping) = world_of get_ping"
proof -
  have h: "req_method (requests (world_of get_ping) 0) \<notin> set (methods echo_route)"
    by (simp add: world_of_def get_ping_def echo_route_def)
  show ?thesis
    using h other_method_no_action [OF h, of echo_env plain_options 0 host_next] by simp
qed

text \<open>
  Claim C6, as the code has it. When the method matches and parseBody is disabled, the
  bridge dispatches the pattern of the route with a payload whose args.body is the body
  attached to the request when that body is truthy, and the empty mapping otherwise, that
  is when no body is attached or the attached body is null, false, 0 or the empty string.
\<close>

theorem unparsed_body_default:
  assumes "req_method (requests w request) \<in> set (methods rt)" and "\<not> parseBody opts"
  shows "bridge e opts rt request reply next w =
           act e (pattern rt)
             \<lparr>request_h = request, response_h = reply,
              args = \<lparr>args_body = (if truthy (body (requests w request))
                                     then body (requests w request) else JObj []),
                      args_route = rt,
                      args_query = parse_query e (originalUrl (requests w request))\<rparr>\<rparr>
             (act_callback e rt reply next) w"
  using assms by (simp add: bridge_def finish_def)

theorem unparsed_body_default_witness:
  "req_method (requests (world_of post_foo) 0) \<in> set (methods quiet_route) \<and>
   \<not> parseBody plain_options \<and>
   journal (bridge echo_env plain_options quiet_route 0 0 host_next (world_of post_foo)) =
     [JArr [JStr ''role:test,cmd:quiet'', JObj [(''foo'', JStr ''bar'')]]]"
proof -
  have h: "req_method (requests (world_of post_foo) 0) \<in> set (methods quiet_route)"
    by (simp add: world_of_def post_foo_def quiet_route_def)
  have p: "\<not> parseBody plain_options"
    by (simp add: plain_options_def)
  show ?thesis
    using h p unparsed_body_default [OF h p, of echo_env 0 host_next]
    by (simp add: echo_env_def act_callback_def quiet_route_def world_of_def post_foo_def
        jot_def)
qed

text \<open>
  The claim as written fails for an attached body that is falsy: a request whose body an
  upstream parser has set to \<^verbatim>\<open>false\<close> is dispatched with the empty mapping as args.body.
\<close>

theorem falsy_body_replaced_counterexample:
  "req_method (requests (world_of post_false) 0) \<in> set (methods quiet_route) \<and>
   \<not> parseBody plain_options \<and>
   body (requests (world_of post_false) 0) = JBool False \<and>
   journal (bridge echo_env plain_options quiet_route 0 0 host_next (world_of post_false)) =
     [JArr [JStr ''role:test,cmd:quiet'', JObj []]]"
  by (simp add: bridge_def finish_def act_callback_def echo_env_def plain_options_def
      quiet_route_def world_of_def post_false_def jot_def)





section \<open>The registrar\<close>

lemma resolve_entry_usable:
  "callable_entry named x \<Longrightarrow> \<exists>f. resolve_entry named x = Inr f"
  by (cases x) (auto split: option.splits entry.splits)

lemma resolve_entry_unusable:
  "\<not> callable_entry named x \<Longrightarrow>
   \<exists>txt. (x = Str txt \<or> x = Other txt) \<and>
         resolve_entry named x = Inl (JError (''expected valid middleware, got '' @ txt))"
  by (cases x) (auto split: option.splits entry.splits)

lemma resolve_all_usable:
  "\<forall>x\<in>set xs. callable_entry named x \<Longrightarrow> \<exists>fs. resolve_all named xs = Inr fs"
proof (induction xs)
  case Nil
  then show ?case by simp
next
  case (Cons x xs)
  then obtain f fs where "resolve_entry named x = Inr f" "resolve_all named xs = Inr fs"
    using resolve_entry_usable [of named x] by auto
  then show ?case by simp
qed

lemma resolve_all_first_unusable:
  "\<forall>y\<in>set xs. callable_entry named y \<Longrightarrow> resolve_entry named x = Inl err \<Longrightarrow>
   resolve_all named (xs @ x # ys) = Inl err"
proof (induction xs)
  case Nil
  then show ?case by simp
next
  case (Cons y xs)
  then obtain f where "resolve_entry named y = Inr f"
    using resolve_entry_usable [of named y] by auto
  with Cons show ?case by simp
qed

lemma route_handler_usable:
  assumes "\<forall>x\<in>set (entries rt). callable_entry (opt_middleware opts) x"
  shows "\<exists>h. route_handler e opts rt = Inr h"
proof -
  obtain fs where "resolve_all (opt_middleware opts) (entries rt) = Inr fs"
    using resolve_all_usable [OF assms] by auto
  then show ?thesis
    by (cases fs) (simp_all add: route_handler_def composeMiddleware_def)
qed

lemma each_route_usable:
  "\<forall>rt\<in>set rts. \<exists>h. route_handler e opts rt = Inr h \<Longrightarrow>
   thrown (each_route e opts rts st) = thrown st \<and>
   done_calls (each_route e opts rts st) = done_calls st \<and>
   map fst (used (each_route e opts rts st)) = map fst (used st) @ map path rts \<and>
   map (Inr \<circ> snd) (used (each_route e opts rts st)) =
     map (Inr \<circ> snd) (used st) @ map (route_handler e opts) rts"
proof (induction rts arbitrary: st)
  case Nil
  then show ?case by simp
next
  case (Cons rt rts)
  then obtain h where h: "route_handler e opts rt = Inr h" by auto
  from Cons.prems have rest: "\<forall>rt\<in>set rts. \<exists>h. route_handler e opts rt = Inr h" by simp
  show ?case
    using Cons.IH [OF rest, of "st\<lparr>used := used st @ [(path rt, h)]\<rparr>"] h by simp
qed

lemma each_route_append:
  "\<forall>rt\<in>set pre. \<exists>h. route_handler e opts rt = Inr h \<Longrightarrow>
   each_route e opts (pre @ rts) st = each_route e opts rts (each_route e opts pre st)"
proof (induction pre arbitrary: st)
  case Nil
  then show ?case by simp
next
  case (Cons rt pre)
  then obtain h where h: "route_handler e opts rt = Inr h" by auto
  with Cons show ?case by simp
qed

text \<open>
  Claim C7. Called without a context, the adapter calls done once, with the error
  \<^verbatim>\<open>no context provided\<close> and no summary, throws nothing and registers no route,
  whatever the routes are.
\<close>

theorem no_context_rejected:
  "connect e opts None auth routes =
     \<lparr>used = [], done_calls = [Done (JError ''no context provided'') None], thrown = None\<rparr>"
  by (simp add: connect_def)

text \<open>
  Claim C9. Called with a context and routes whose middleware entries are all usable, the
  adapter registers one handler per route, in the order of the routes and each under the
  path of its route (the handler being the composition of the resolved middleware and the
  bridge of that route), then calls done exactly once, with no error and a summary holding
  the routes it was given, and throws nothing.
\<close>

theorem routes_registered_in_order:
  assumes "\<forall>rt\<in>set routes. \<forall>x\<in>set (entries rt). callable_entry (opt_middleware opts) x"
  shows "map fst (used (connect e opts (Some ctx) auth routes)) = map path routes \<and>
         map (Inr \<circ> snd) (used (connect e opts (Some ctx) auth routes)) =
           map (route_handler e opts) routes \<and>
         done_calls (connect e opts (Some ctx) auth routes) = [Done JNull (Some routes)] \<and>
         thrown (connect e opts (Some ctx) auth routes) = None"
proof -
  have ok: "\<forall>rt\<in>set routes. \<exists>h. route_handler e opts rt = Inr h"
    using assms route_handler_usable by blast
  show ?thesis
    using each_route_usable [OF ok, of "\<lparr>used = [], done_calls = [], thrown = None\<rparr>"]
    by (simp add: connect_def Let_def)
qed

theorem routes_registered_in_order_witness:
  "map fst (used (connect echo_env plain_options (Some ()) () [ping_route, echo_route])) =
     [''/ping'', ''/echo''] \<and>
   done_calls (connect echo_env plain_options (Some ()) () [ping_route, echo_route]) =
     [Done JNull (Some [ping_route, echo_route])] \<and>
   thrown (connect echo_env plain_options (Some ()) () [ping_route, echo_route]) = None"
proof -
  have h: "\<forall>rt\<in>set [ping_route, echo_route].
             \<forall>x\<in>set (entries rt). callable_entry (opt_middleware plain_options) x"
    by (simp add: entries_def ping_route_def echo_route_def)
  have p: "map path [ping_route, echo_route] = [''/ping'', ''/echo'']"
    by (simp add: ping_route_def echo_route_def)
  show ?thesis
    using routes_registered_in_order [OF h, of echo_env "()" "()"] p by simp
qed

text \<open>
  Claim C2, as the code has it. When the routes before some route have only usable
  middleware entries and that route has an entry that is not usable, the adapter throws
  an error whose message quotes the first such entry as written, and never calls done.
  No handler is registered for that route or for any route after it; the routes before
  it have been registered, in order, and stay so.
\<close>

theorem invalid_entry_stops_registration:
  assumes "\<forall>r\<in>set pre. \<forall>y\<in>set (entries r). callable_entry (opt_middleware opts) y"
    and "entries rt = xs @ x # ys"
    and "\<forall>y\<in>set xs. callable_entry (opt_middleware opts) y"
    and "\<not> callable_entry (opt_middleware opts) x"
  shows "\<exists>txt. (x = Str txt \<or> x = Other txt) \<and>
           thrown (connect e opts (Some ctx) auth (pre @ rt # post)) =
             Some (JError (''expected valid middleware, got '' @ txt)) \<and>
           done_calls (connect e opts (Some ctx) auth (pre @ rt # post)) = [] \<and>
           map fst (used (connect e opts (Some ctx) auth (pre @ rt # post))) = map path pre \<and>
           map (Inr \<circ> snd) (used (connect e opts (Some ctx) auth (pre @ rt # post))) =
             map (route_handler e opts) pre"
proof -
  obtain t where shape: "x = Str t \<or> x = Other t"
    and bad: "resolve_entry (opt_middleware opts) x =
                Inl (JError (''expected valid middleware, got '' @ t))"
    using resolve_entry_unusable [OF assms(4)] by blast
  have "resolve_all (opt_middleware opts) (entries rt) =
          Inl (JError (''expected valid middleware, got '' @ t))"
    using resolve_all_first_unusable [OF assms(3) bad] assms(2) by simp
  then have rt: "route_handler e opts rt = Inl (JError (''expected valid middleware, got '' @ t))"
    by (simp add: route_handler_def)
  have ok: "\<forall>r\<in>set pre. \<exists>h. route_handler e opts r = Inr h"
    using assms(1) route_handler_usable by blast
  let ?st = "each_route e opts pre \<lparr>used = [], done_calls = [], thrown = None\<rparr>"
  have run: "each_route e opts (pre @ rt # post) \<lparr>used = [], done_calls = [], thrown = None\<rparr> =
               ?st\<lparr>thrown := Some (JError (''expected valid middleware, got '' @ t))\<rparr>"
    using each_route_append [OF ok] rt by simp
  show ?thesis
    using shape run each_route_usable [OF ok, of "\<lparr>used = [], done_calls = [], thrown = None\<rparr>"]
    by (intro exI [of _ t]) (simp add: connect_def Let_def)
qed

theorem invalid_entry_stops_registration_witness:
  "thrown (connect echo_env plain_options (Some ()) () ([ping_route] @ broken_route # [echo_route])) =
     Some (JError ''expected valid middleware, got total not valid'') \<and>
   done_calls (connect echo_env plain_options (Some ()) ()
                 ([ping_route] @ broken_route # [echo_route])) = [] \<and>
   map fst (used (connect echo_env plain_options (Some ()) ()
                    ([ping_route] @ broken_route # [echo_route]))) = [''/ping'']"
proof -
  have a: "\<forall>r\<in>set [ping_route]. \<forall>y\<in>set (entries r). callable_entry (opt_middleware plain_options) y"
    by (simp add: entries_def ping_route_def)
  have b: "entries broken_route = [] @ Str ''total not valid'' # []"
    by (simp add: entries_def broken_route_def)
  have c: "\<forall>y\<in>set []. callable_entry (opt_middleware plain_options) y"
    by simp
  have d: "\<not> callable_entry (opt_middleware plain_options) (Str ''total not valid'')"
    by (simp add: plain_options_def)
  have p: "map path [ping_route] = [''/ping'']"
    by (simp add: ping_route_def)
  show ?thesis
    using invalid_entry_stops_registration [OF a b c d, of echo_env "()" "()" "[echo_route]"] p
    by auto
qed

text \<open>
  The claim as written fails on the routes registered before the failure: with a usable
  route followed by one naming an unknown middleware, the adapter throws, and the first
  route is registered on the host server all the same.
\<close>

theorem earlier_route_registered_counterexample:
  "thrown (connect echo_env plain_options (Some ()) () [ping_route, broken_route]) =
     Some (JError ''expected valid middleware, got total not valid'') \<and>
   map fst (used (connect echo_env plain_options (Some ()) () [ping_route, broken_route])) =
     [''/ping'']"
  by (simp add: connect_def Let_def route_handler_def entries_def composeMiddleware_def
      ping_route_def broken_route_def plain_options_def)

end
